theory Spec2Isabelle
  imports Main
begin

section \<open>smdv: the synchronization hub and the renderer dispatch\<close>

text \<open>
  A shallow embedding of the websocket side of \<^verbatim>\<open>smdv.py\<close>: the module-level state
  (\<^verbatim>\<open>MESSAGE\<close>, \<^verbatim>\<open>BACKMESSAGES\<close>, \<^verbatim>\<open>FORWARDMESSAGES\<close>, \<^verbatim>\<open>JSCLIENTS\<close>,
  \<^verbatim>\<open>PYCLIENTS\<close>), the coroutines \<^verbatim>\<open>handle_message\<close>, \<^verbatim>\<open>register_client\<close>,
  \<^verbatim>\<open>unregister_client\<close>, \<^verbatim>\<open>send_message_to_all_js_clients\<close>, and the functions
  \<^verbatim>\<open>encode\<close>, \<^verbatim>\<open>txt2body\<close> and \<^verbatim>\<open>validate_message\<close>.
\<close>

subsection \<open>Values, messages, exceptions\<close>

text \<open>
  A message is the dictionary that \<^verbatim>\<open>json.loads\<close> returns. The fields of the protocol are
  strings and booleans; JSON \<^verbatim>\<open>null\<close> is modelled too. Numbers, arrays and objects, which
  no field of the protocol carries, are outside the model. On these three kinds of value
  Python's \<^verbatim>\<open>==\<close> is structural equality. Strings are byte strings (UTF-8); every character
  the code inspects (\<^verbatim>\<open>.\<close> and \<^verbatim>\<open>/\<close>) is ASCII.
\<close>

datatype val = VNone | VBool bool | VStr string

type_synonym message = "string \<rightharpoonup> val"

datatype error =
    KeyError string
  | IndexError
  | TypeError
  | AttributeError
  | ImportError
  | AssertionError
  | ValueError
  | OSError
  | RenderError

text \<open>Python's truth value of an object: \<^verbatim>\<open>None\<close>, \<^verbatim>\<open>False\<close> and \<^verbatim>\<open>""\<close> are false.\<close>

fun truthy :: "val \<Rightarrow> bool" where
  "truthy VNone = False"
| "truthy (VBool b) = b"
| "truthy (VStr s) = (s \<noteq> [])"

text \<open>\<^verbatim>\<open>d.get(k, default)\<close>, \<^verbatim>\<open>d.get(k)\<close> and \<^verbatim>\<open>d[k]\<close>.\<close>

definition dict_get_default :: "message \<Rightarrow> string \<Rightarrow> val \<Rightarrow> val" where
  "dict_get_default d k dflt = (case d k of None \<Rightarrow> dflt | Some v \<Rightarrow> v)"

definition dict_get :: "message \<Rightarrow> string \<Rightarrow> val" where
  "dict_get d k = dict_get_default d k VNone"

definition dict_item :: "message \<Rightarrow> string \<Rightarrow> error + val" where
  "dict_item d k = (case d k of None \<Rightarrow> Inl (KeyError k) | Some v \<Rightarrow> Inr v)"

text \<open>\<^verbatim>\<open>str(x)\<close>, as an f-string formats a value.\<close>

fun py_str :: "val \<Rightarrow> string" where
  "py_str VNone = ''None''"
| "py_str (VBool True) = ''True''"
| "py_str (VBool False) = ''False''"
| "py_str (VStr s) = s"

subsection \<open>Configuration and external collaborators\<close>

text \<open>
  \<^verbatim>\<open>ARGS\<close> and the library calls. \<open>md_html wd s\<close> stands for the body of \<^verbatim>\<open>md2body\<close> on
  a string \<open>s\<close> (the call of the Markdown library followed by the rewriting of relative
  URLs, which reads the working directory \<open>wd\<close> of the process); it is taken to return.
  \<open>ipynb_html\<close> stands for \<^verbatim>\<open>ipynb2body\<close> (nbconvert), which raises \<^verbatim>\<open>ImportError\<close>
  where nbconvert is not installed. \<open>dir_html\<close> stands for \<^verbatim>\<open>dir2body\<close>, which reads
  the file system. \<open>chdir_ok p\<close> says that \<^verbatim>\<open>os.chdir(p)\<close> succeeds, and
  \<open>nvim_edit addr p\<close> is the outcome of \<^verbatim>\<open>edit_in_neovim(p)\<close> (\<open>None\<close> when it
  returns).
\<close>

record env =
  args_home :: string
  args_stdin :: string
  args_interactive :: bool
  md_html :: "string \<Rightarrow> string \<Rightarrow> string"
  ipynb_html :: "val \<Rightarrow> error + string"
  dir_html :: "val \<Rightarrow> error + string"
  chdir_ok :: "string \<Rightarrow> bool"
  nvim_edit :: "val \<Rightarrow> string \<Rightarrow> error option"

subsection \<open>Renderer dispatch\<close>

text \<open>\<^verbatim>\<open>str.rfind\<close> of a character: the highest index, or \<open>-1\<close>.\<close>

fun rfind :: "char \<Rightarrow> string \<Rightarrow> int" where
  "rfind c [] = - 1"
| "rfind c (x # xs) =
     (let r = rfind c xs in if 0 \<le> r then r + 1 else if x = c then 0 else - 1)"

text \<open>
  \<^verbatim>\<open>os.path.splitext\<close> (posixpath): the extension starts at the last dot, if that dot
  comes after the last slash and some character between the two is not a dot.
\<close>

definition splitext :: "string \<Rightarrow> string \<times> string" where
  "splitext p =
     (let sepIndex = rfind CHR ''/'' p;
          dotIndex = rfind CHR ''.'' p
      in if sepIndex < dotIndex \<and>
            list_ex (\<lambda>c. c \<noteq> CHR ''.'')
              (take (nat (dotIndex - (sepIndex + 1))) (drop (nat (sepIndex + 1)) p))
         then (take (nat dotIndex) p, drop (nat dotIndex) p)
         else (p, []))"

text \<open>
  \<^verbatim>\<open>md2body\<close>: the Markdown library calls \<^verbatim>\<open>source.strip()\<close>, which a value that is
  not a string does not have.
\<close>

definition md2body :: "env \<Rightarrow> string \<Rightarrow> val \<Rightarrow> error + string" where
  "md2body env wd content =
     (case content of VStr s \<Rightarrow> Inr (md_html env wd s) | _ \<Rightarrow> Inl AttributeError)"

definition txt2body :: "env \<Rightarrow> string \<Rightarrow> val \<Rightarrow> error + string" where
  "txt2body env wd content =
     md2body env wd (VStr (''```'' @ [CHR 0x0A] @ py_str content @ [CHR 0x0A] @ ''```''))"

text \<open>
  Lines 996 to 1001 of \<^verbatim>\<open>encode\<close>: the encoding inferred from the file name.
  \<^verbatim>\<open>filename[0]\<close> raises \<^verbatim>\<open>IndexError\<close> on the empty string and \<^verbatim>\<open>TypeError\<close> on
  \<^verbatim>\<open>None\<close> and on a boolean.
\<close>

definition infer_encoding :: "env \<Rightarrow> val \<Rightarrow> error + val" where
  "infer_encoding env filename =
     (case filename of
        VStr [] \<Rightarrow> Inl IndexError
      | VStr (c # cs) \<Rightarrow>
          if c = CHR ''.'' \<and> CHR ''.'' \<notin> set cs then Inr (VStr ''txt'')
          else
            let encoding = drop 1 (snd (splitext (c # cs)))
            in if encoding = [] then Inr (VStr (args_stdin env)) else Inr (VStr encoding)
      | _ \<Rightarrow> Inl TypeError)"

text \<open>
  Lines 993 to 1002: the variable \<^verbatim>\<open>encoding\<close> and the message after the block
  \<^verbatim>\<open>if not encoding\<close>, which stores the inferred encoding in the message.
\<close>

definition resolve_encoding :: "env \<Rightarrow> message \<Rightarrow> error + val \<times> message" where
  "resolve_encoding env message =
     (let encoding = dict_get message ''fileEncoding'';
          filename = dict_get message ''filename''
      in if \<not> truthy encoding then
           (case infer_encoding env filename of
              Inl e \<Rightarrow> Inl e
            | Inr inferred \<Rightarrow> Inr (inferred, message(''fileEncoding'' \<mapsto> inferred)))
         else Inr (encoding, message))"

text \<open>The statements under \<^verbatim>\<open>if encoding == "md"\<close> and under \<^verbatim>\<open>if encoding == "txt"\<close>.\<close>

definition render_md :: "env \<Rightarrow> string \<Rightarrow> message \<Rightarrow> error + message" where
  "render_md env wd message =
     (case dict_item message ''fileBody'' of
        Inl e \<Rightarrow> Inl e
      | Inr body \<Rightarrow>
          (case md2body env wd body of
             Inl e \<Rightarrow> Inl e
           | Inr html \<Rightarrow> Inr (message(''fileBody'' \<mapsto> VStr html))))"

definition render_txt :: "env \<Rightarrow> string \<Rightarrow> message \<Rightarrow> error + message" where
  "render_txt env wd message =
     (case dict_item message ''fileBody'' of
        Inl e \<Rightarrow> Inl e
      | Inr body \<Rightarrow>
          (case txt2body env wd body of
             Inl e \<Rightarrow> Inl e
           | Inr html \<Rightarrow> Inr (message(''fileBody'' \<mapsto> VStr html))))"

text \<open>
  The statements under \<^verbatim>\<open>if encoding == "ipynb"\<close>. \<open>Inr\<close> is the message returned;
  \<open>Inl None\<close> says that \<^verbatim>\<open>ImportError\<close> was caught, after which \<^verbatim>\<open>encoding\<close> and
  \<^verbatim>\<open>message["fileEncoding"]\<close> are \<^verbatim>\<open>"txt"\<close>; any other exception propagates.
\<close>

definition render_ipynb :: "env \<Rightarrow> message \<Rightarrow> error option + message" where
  "render_ipynb env message =
     (case dict_item message ''fileBody'' of
        Inl e \<Rightarrow> Inl (Some e)
      | Inr body \<Rightarrow>
          (case ipynb_html env body of
             Inr html \<Rightarrow> Inr (message(''fileBody'' \<mapsto> VStr html))
           | Inl e \<Rightarrow> if e = ImportError then Inl None else Inl (Some e)))"

text \<open>The guard \<^verbatim>\<open>message.get("fileEncoded", False)\<close>.\<close>

definition encoded :: "message \<Rightarrow> bool" where
  "encoded message = truthy (dict_get_default message ''fileEncoded'' (VBool False))"

text \<open>
  \<^verbatim>\<open>encode\<close>. The dictionary is updated in place by the source and returned; the model
  returns the updated dictionary. After \<^verbatim>\<open>except ImportError\<close> the variable
  \<^verbatim>\<open>encoding\<close> is \<^verbatim>\<open>"txt"\<close>, so control reaches the statements under
  \<^verbatim>\<open>if encoding == "txt"\<close>; the model calls them there. The subscript
  \<^verbatim>\<open>message["fileEncoding"]\<close> of the test for \<^verbatim>\<open>"html"\<close> finds the key, which the
  block \<^verbatim>\<open>if not encoding\<close> stores when the message lacks it (lemma
  \<open>resolve_stores\<close>). When \<^verbatim>\<open>encode\<close> raises, its caller drops the dictionary, so
  the model keeps the exception only.
\<close>

function encode :: "env \<Rightarrow> string \<Rightarrow> message \<Rightarrow> error + message" where
  "encode env wd message =
     (if encoded message then Inr message
      else
        (case resolve_encoding env (message(''fileEncoded'' \<mapsto> VBool True)) of
           Inl e \<Rightarrow> Inl e
         | Inr (encoding, message1) \<Rightarrow>
             if encoding = VStr ''md'' then render_md env wd message1
             else if encoding = VStr ''ipynb'' then
               (case render_ipynb env message1 of
                  Inr message2 \<Rightarrow> Inr message2
                | Inl (Some e) \<Rightarrow> Inl e
                | Inl None \<Rightarrow> render_txt env wd (message1(''fileEncoding'' \<mapsto> VStr ''txt'')))
             else if encoding = VStr ''txt'' then render_txt env wd message1
             else if dict_item message1 ''fileEncoding'' = Inr (VStr ''html'') then Inr message1
             else encode env wd
                    (message1(''fileEncoding'' \<mapsto> VStr ''txt'', ''fileEncoded'' \<mapsto> VBool False))))"
  by pat_completeness auto

text \<open>
  The recursive call is made on a message whose \<^verbatim>\<open>fileEncoding\<close> is \<^verbatim>\<open>"txt"\<close>, by a
  call whose message has another \<^verbatim>\<open>fileEncoding\<close>.
\<close>

definition encode_measure :: "env \<times> string \<times> message \<Rightarrow> nat" where
  "encode_measure = (\<lambda>(env, wd, m). if m ''fileEncoding'' = Some (VStr ''txt'') then 0 else 1)"

termination encode
proof (relation "measure encode_measure")
  show "wf (measure encode_measure)"
    by simp
next
  fix env :: env and wd :: string and message message1 :: message
    and encoding :: val and x :: "val \<times> message"
  assume res: "resolve_encoding env (message(''fileEncoded'' \<mapsto> VBool True)) = Inr x"
    and x: "(encoding, message1) = x"
    and ntxt: "encoding \<noteq> VStr ''txt''"
  have "message ''fileEncoding'' \<noteq> Some (VStr ''txt'')"
  proof
    assume "message ''fileEncoding'' = Some (VStr ''txt'')"
    with res x have "encoding = VStr ''txt''"
      by (auto simp: resolve_encoding_def dict_get_def dict_get_default_def)
    with ntxt show False by simp
  qed
  then show "((env, wd, message1(''fileEncoding'' \<mapsto> VStr ''txt'', ''fileEncoded'' \<mapsto> VBool False)),
              (env, wd, message)) \<in> measure encode_measure"
    by (simp add: encode_measure_def)
qed

text \<open>
  \<^verbatim>\<open>encode\<close> again, with the chain of encodings it goes through: the value of
  \<^verbatim>\<open>encoding\<close> that each call dispatches on, \<^verbatim>\<open>"txt"\<close> after the fallback from
  \<^verbatim>\<open>ipynb\<close>, and \<^verbatim>\<open>"md"\<close> after \<^verbatim>\<open>"txt"\<close>, since \<^verbatim>\<open>txt2body\<close> ends in
  \<^verbatim>\<open>md2body\<close>.
\<close>

function encode_traced :: "env \<Rightarrow> string \<Rightarrow> message \<Rightarrow> val list \<times> (error + message)" where
  "encode_traced env wd message =
     (if encoded message then ([], Inr message)
      else
        (case resolve_encoding env (message(''fileEncoded'' \<mapsto> VBool True)) of
           Inl e \<Rightarrow> ([], Inl e)
         | Inr (encoding, message1) \<Rightarrow>
             if encoding = VStr ''md'' then ([encoding], render_md env wd message1)
             else if encoding = VStr ''ipynb'' then
               (case render_ipynb env message1 of
                  Inr message2 \<Rightarrow> ([encoding], Inr message2)
                | Inl (Some e) \<Rightarrow> ([encoding], Inl e)
                | Inl None \<Rightarrow>
                    ([encoding, VStr ''txt'', VStr ''md''],
                     render_txt env wd (message1(''fileEncoding'' \<mapsto> VStr ''txt''))))
             else if encoding = VStr ''txt'' then
               ([encoding, VStr ''md''], render_txt env wd message1)
             else if dict_item message1 ''fileEncoding'' = Inr (VStr ''html'') then
               ([encoding], Inr message1)
             else
               (let (chain, result) =
                      encode_traced env wd
                        (message1(''fileEncoding'' \<mapsto> VStr ''txt'', ''fileEncoded'' \<mapsto> VBool False))
                in (encoding # chain, result))))"
  by pat_completeness auto

termination encode_traced
proof (relation "measure encode_measure")
  show "wf (measure encode_measure)"
    by simp
next
  fix env :: env and wd :: string and message message1 :: message
    and encoding :: val and x :: "val \<times> message"
  assume res: "resolve_encoding env (message(''fileEncoded'' \<mapsto> VBool True)) = Inr x"
    and x: "(encoding, message1) = x"
    and ntxt: "encoding \<noteq> VStr ''txt''"
  have "message ''fileEncoding'' \<noteq> Some (VStr ''txt'')"
  proof
    assume "message ''fileEncoding'' = Some (VStr ''txt'')"
    with res x have "encoding = VStr ''txt''"
      by (auto simp: resolve_encoding_def dict_get_def dict_get_default_def)
    with ntxt show False by simp
  qed
  then show "((env, wd, message1(''fileEncoding'' \<mapsto> VStr ''txt'', ''fileEncoded'' \<mapsto> VBool False)),
              (env, wd, message)) \<in> measure encode_measure"
    by (simp add: encode_measure_def)
qed

subsection \<open>The hub's state\<close>

text \<open>
  The module-level variables of the websocket server, the working directory of the process
  (set by \<^verbatim>\<open>os.chdir\<close>, read by \<^verbatim>\<open>md2body\<close>), \<^verbatim>\<open>ARGS.nvim_address\<close> (assigned by
  \<^verbatim>\<open>handle_message\<close>), and the frames written to the websockets, in order. A deque is a
  list whose head is the left end. Each coroutine is run to completion: the event loop's
  interleaving at an \<^verbatim>\<open>await\<close> is not modelled, and a \<^verbatim>\<open>send\<close> is taken to return.
\<close>

type_synonym client = nat

datatype frame =
    Send client message
  | SendCount client nat
  | Broadcast "client set" message

record hub =
  MESSAGE :: message
  BACKMESSAGES :: "message list"
  FORWARDMESSAGES :: "message list"
  JSCLIENTS :: "client set"
  PYCLIENTS :: "client set"
  nvim_address :: val
  proc_cwd :: string
  frames :: "frame list"

definition fresh_hub :: "val \<Rightarrow> string \<Rightarrow> hub" where
  "fresh_hub addr wd =
     \<lparr>MESSAGE = Map.empty, BACKMESSAGES = [], FORWARDMESSAGES = [],
      JSCLIENTS = {}, PYCLIENTS = {}, nvim_address = addr, proc_cwd = wd, frames = []\<rparr>"

subsection \<open>Validation\<close>

definition required_keys :: "string list" where
  "required_keys =
     [''client'', ''func'', ''cwd'', ''cwdBody'', ''cwdEncoded'', ''filename'',
      ''fileBody'', ''fileCwd'', ''fileOpen'', ''fileEncoding'', ''fileEncoded'']"

text \<open>
  \<^verbatim>\<open>validate_message\<close>. The test reads the value stored under \<^verbatim>\<open>"client"\<close>, with the
  string \<^verbatim>\<open>"func"\<close> as default; the loop runs over the required keys, so its second
  assertion compares each required key with the required keys.
\<close>

definition validate_message :: "message \<Rightarrow> error option" where
  "validate_message message =
     (if dict_get_default message ''client'' (VStr ''func'') \<in> {VStr ''dir'', VStr ''file''}
      then (if list_all (\<lambda>key. message key \<noteq> None \<and> key \<in> set required_keys) required_keys
            then None else Some AssertionError)
      else None)"

subsection \<open>Broadcast and history\<close>

text \<open>
  \<^verbatim>\<open>if len(BACKMESSAGES) > 20: BACKMESSAGES.pop()\<close> and the same statement for
  \<^verbatim>\<open>FORWARDMESSAGES\<close>: \<^verbatim>\<open>pop\<close> removes the right end of the deque, the oldest entry.
\<close>

definition cap_back :: "hub \<Rightarrow> hub" where
  "cap_back h =
     (if 20 < length (BACKMESSAGES h) then h\<lparr>BACKMESSAGES := butlast (BACKMESSAGES h)\<rparr>
      else h)"

definition cap_forward :: "hub \<Rightarrow> hub" where
  "cap_forward h =
     (if 20 < length (FORWARDMESSAGES h)
      then h\<lparr>FORWARDMESSAGES := butlast (FORWARDMESSAGES h)\<rparr>
      else h)"

text \<open>The dictionary literal pushed on the back stack; its subscripts raise \<^verbatim>\<open>KeyError\<close>.\<close>

definition snapshot :: "message \<Rightarrow> error + message" where
  "snapshot M =
     (case dict_item M ''cwd'' of
        Inl e \<Rightarrow> Inl e
      | Inr cwd \<Rightarrow>
          (case dict_item M ''cwdBody'' of
             Inl e \<Rightarrow> Inl e
           | Inr cwdBody \<Rightarrow>
               (case dict_item M ''cwdEncoded'' of
                  Inl e \<Rightarrow> Inl e
                | Inr cwdEncoded \<Rightarrow>
                    Inr [''client'' \<mapsto> VStr ''py'', ''func'' \<mapsto> VStr ''dir'', ''cwd'' \<mapsto> cwd,
                         ''cwdBody'' \<mapsto> cwdBody, ''cwdEncoded'' \<mapsto> cwdEncoded,
                         ''filename'' \<mapsto> VStr [], ''fileBody'' \<mapsto> VStr [],
                         ''fileCwd'' \<mapsto> VStr [], ''fileOpen'' \<mapsto> VBool False,
                         ''fileEncoding'' \<mapsto> VStr [], ''fileEncoded'' \<mapsto> VBool False])))"

text \<open>
  The condition \<^verbatim>\<open>(not BACKMESSAGES) or (MESSAGE["cwd"] != BACKMESSAGES[0]["cwd"])\<close>.
\<close>

definition cwd_changed :: "hub \<Rightarrow> error + bool" where
  "cwd_changed h =
     (case BACKMESSAGES h of
        [] \<Rightarrow> Inr True
      | newest # _ \<Rightarrow>
          (case dict_item (MESSAGE h) ''cwd'' of
             Inl e \<Rightarrow> Inl e
           | Inr c \<Rightarrow>
               (case dict_item newest ''cwd'' of
                  Inl e \<Rightarrow> Inl e
                | Inr c' \<Rightarrow> Inr (c \<noteq> c'))))"

text \<open>\<^verbatim>\<open>if JSCLIENTS: await asyncio.wait([client.send(json.dumps(MESSAGE)) ...])\<close>.\<close>

definition broadcast :: "hub \<Rightarrow> hub" where
  "broadcast h =
     (if JSCLIENTS h \<noteq> {} then h\<lparr>frames := frames h @ [Broadcast (JSCLIENTS h) (MESSAGE h)]\<rparr>
      else h)"

definition send_message_to_all_js_clients :: "hub \<Rightarrow> error option \<times> hub" where
  "send_message_to_all_js_clients h =
     (case cwd_changed h of
        Inl e \<Rightarrow> (Some e, h)
      | Inr False \<Rightarrow> (None, broadcast h)
      | Inr True \<Rightarrow>
          (case snapshot (MESSAGE h) of
             Inl e \<Rightarrow> (Some e, h)
           | Inr entry \<Rightarrow>
               (None, broadcast (cap_back (h\<lparr>BACKMESSAGES := entry # BACKMESSAGES h\<rparr>)))))"

subsection \<open>Handling a message\<close>

text \<open>\<^verbatim>\<open>os.chdir(ARGS.home + message["cwd"])\<close>, for a message that has the key.\<close>

definition chdir :: "env \<Rightarrow> val \<Rightarrow> hub \<Rightarrow> error option \<times> hub" where
  "chdir env cwd h =
     (case cwd of
        VStr s \<Rightarrow>
          if chdir_ok env (args_home env @ s)
          then (None, h\<lparr>proc_cwd := args_home env @ s\<rparr>)
          else (Some OSError, h)
      | _ \<Rightarrow> (Some TypeError, h))"

text \<open>
  \<^verbatim>\<open>edit_in_neovim(ARGS.home + MESSAGE["fileCwd"] + MESSAGE["filename"])\<close>: the argument is
  evaluated from left to right.
\<close>

definition edit_current_file :: "env \<Rightarrow> hub \<Rightarrow> error option" where
  "edit_current_file env h =
     (case dict_item (MESSAGE h) ''fileCwd'' of
        Inl e \<Rightarrow> Some e
      | Inr (VStr fileCwd) \<Rightarrow>
          (case dict_item (MESSAGE h) ''filename'' of
             Inl e \<Rightarrow> Some e
           | Inr (VStr filename) \<Rightarrow>
               nvim_edit env (nvim_address h) (args_home env @ fileCwd @ filename)
           | Inr _ \<Rightarrow> Some TypeError)
      | Inr _ \<Rightarrow> Some TypeError)"

text \<open>The assignments \<^verbatim>\<open>message[k] = MESSAGE[k]\<close>, one key after the other.\<close>

fun copy_items :: "message \<Rightarrow> string list \<Rightarrow> message \<Rightarrow> error + message" where
  "copy_items M [] message = Inr message"
| "copy_items M (k # ks) message =
     (case dict_item M k of
        Inl e \<Rightarrow> Inl e
      | Inr v \<Rightarrow> copy_items M ks (message(k \<mapsto> v)))"

definition file_keys :: "string list" where
  "file_keys = [''filename'', ''fileCwd'', ''fileBody'', ''fileEncoding'', ''fileEncoded'']"

text \<open>
  The statements under \<^verbatim>\<open>if func == "dir"\<close>. The \<^verbatim>\<open>and\<close> is evaluated from left to
  right, so \<^verbatim>\<open>forceClose\<close> is popped only when the message has no file name and the
  canonical state has one.
\<close>

definition prepare_dir :: "env \<Rightarrow> message \<Rightarrow> message \<Rightarrow> error + message" where
  "prepare_dir env M message =
     (let merged =
        (if \<not> truthy (dict_get message ''filename'') \<and> truthy (dict_get M ''filename'')
         then
           (if \<not> truthy (dict_get_default message ''forceClose'' (VBool False))
            then copy_items M file_keys (message(''forceClose'' := None))
            else Inr (message(''forceClose'' := None)))
         else Inr message)
      in case merged of
           Inl e \<Rightarrow> Inl e
         | Inr message1 \<Rightarrow>
             (case dict_item message1 ''cwdEncoded'' of
                Inl e \<Rightarrow> Inl e
              | Inr cwdEncoded \<Rightarrow>
                  if \<not> truthy cwdEncoded then
                    (case dict_item message1 ''cwd'' of
                       Inl e \<Rightarrow> Inl e
                     | Inr cwd \<Rightarrow>
                         (case dir_html env cwd of
                            Inl e \<Rightarrow> Inl e
                          | Inr html \<Rightarrow>
                              Inr (message1(''cwdBody'' \<mapsto> VStr html,
                                            ''cwdEncoded'' \<mapsto> VBool True))))
                  else Inr message1))"

text \<open>
  The statements under \<^verbatim>\<open>if func in {"dir", "file"}\<close>: \<^verbatim>\<open>MESSAGE.update(message)\<close>, the
  editor in interactive mode, the broadcast.
\<close>

definition publish :: "env \<Rightarrow> message \<Rightarrow> hub \<Rightarrow> error option \<times> hub" where
  "publish env message h =
     (let h1 = h\<lparr>MESSAGE := MESSAGE h ++ message\<rparr>
      in case (if args_interactive env \<and> dict_item (MESSAGE h1) ''func'' = Inr (VStr ''file'')
               then edit_current_file env h1 else None) of
           Some e \<Rightarrow> (Some e, h1)
         | None \<Rightarrow> send_message_to_all_js_clients h1)"

text \<open>
  The first statements of \<^verbatim>\<open>handle_message\<close>, up to the tests of \<^verbatim>\<open>func\<close>:
  \<^verbatim>\<open>nvimAddress\<close> is popped from the message into \<^verbatim>\<open>ARGS.nvim_address\<close>, the message
  is validated, and the process changes to the directory of a message that has
  \<^verbatim>\<open>cwd\<close>. The result is the exception raised, if any, and the state.
\<close>

definition enter :: "env \<Rightarrow> message \<Rightarrow> hub \<Rightarrow> error option \<times> hub" where
  "enter env message0 h0 =
     (let h1 = h0\<lparr>nvim_address := dict_get_default message0 ''nvimAddress'' (nvim_address h0)\<rparr>;
          message = message0(''nvimAddress'' := None)
      in case validate_message message of
           Some e \<Rightarrow> (Some e, h1)
         | None \<Rightarrow>
             if message ''cwd'' \<noteq> None then chdir env (dict_get message ''cwd'') h1
             else (None, h1))"

text \<open>
  \<^verbatim>\<open>handle_message\<close>. The result is the exception raised, if any, and the state the call
  leaves. \<^verbatim>\<open>len(BACKMESSAGES) < 2\<close> and the two \<^verbatim>\<open>popleft\<close> are the pattern match on
  the back stack.
\<close>

function handle_message :: "env \<Rightarrow> client \<Rightarrow> message \<Rightarrow> hub \<Rightarrow> error option \<times> hub" where
  "handle_message env client message0 h0 =
     (let func = dict_get message0 ''func'';
          message = message0(''nvimAddress'' := None)
      in case enter env message0 h0 of
           (Some e, h2) \<Rightarrow> (Some e, h2)
         | (None, h2) \<Rightarrow>
             if \<not> truthy func then (None, h2)
             else if func = VStr ''numJSClients'' then
               (None, h2\<lparr>frames := frames h2 @ [SendCount client (card (JSCLIENTS h2))]\<rparr>)
             else if func = VStr ''editFile'' then (edit_current_file env h2, h2)
             else if func = VStr ''back'' then
               (case BACKMESSAGES h2 of
                  newest # previous # rest \<Rightarrow>
                    let h3 = (if truthy (dict_get message ''fileOpen'')
                              then h2\<lparr>BACKMESSAGES := previous # rest\<rparr>
                              else h2\<lparr>FORWARDMESSAGES := newest # FORWARDMESSAGES h2,
                                      BACKMESSAGES := rest\<rparr>);
                        message1 = (if truthy (dict_get message ''fileOpen'')
                                    then newest else previous)
                    in handle_message env client message1 (cap_forward h3)
                | _ \<Rightarrow> (None, h2))
             else if func = VStr ''dir'' then
               (case prepare_dir env (MESSAGE h2) message of
                  Inl e \<Rightarrow> (Some e, h2)
                | Inr message1 \<Rightarrow> publish env message1 h2)
             else if func = VStr ''file'' then
               (case encode env (proc_cwd h2) message of
                  Inl e \<Rightarrow> (Some e, h2)
                | Inr message1 \<Rightarrow> publish env message1 h2)
             else (None, h2))"
  by pat_completeness auto

termination handle_message
proof (relation "measure (\<lambda>(env, client, message, h). length (BACKMESSAGES h))")
  show "wf (measure (\<lambda>(env, client, message, h). length (BACKMESSAGES h)))"
    by simp
next
  fix env :: env and client :: client and message0 message message1 newest previous :: message
    and h0 h2 h3 :: hub and r :: "error option"
    and rest l :: "message list"
  assume e: "(r, h2) = enter env message0 h0"
    and bk: "BACKMESSAGES h2 = newest # l" and l: "l = previous # rest"
    and h3: "h3 = (if truthy (dict_get message ''fileOpen'')
                   then h2\<lparr>BACKMESSAGES := previous # rest\<rparr>
                   else h2\<lparr>FORWARDMESSAGES := newest # FORWARDMESSAGES h2,
                           BACKMESSAGES := rest\<rparr>)"
  from e have "BACKMESSAGES h2 = BACKMESSAGES h0"
    by (auto simp: enter_def chdir_def Let_def split: option.splits val.splits if_splits)
  with bk l h3 have "length (BACKMESSAGES (cap_forward h3)) < length (BACKMESSAGES h0)"
    by (auto simp: cap_forward_def)
  then show "((env, client, message1, cap_forward h3), (env, client, message0, h0))
             \<in> measure (\<lambda>(env, client, message, h). length (BACKMESSAGES h))"
    by simp
qed

subsection \<open>Registration and the operations of the hub\<close>

text \<open>
  \<^verbatim>\<open>register_client\<close>, applied to the first message of the connection, and
  \<^verbatim>\<open>unregister_client\<close>.
\<close>

definition register_client :: "env \<Rightarrow> client \<Rightarrow> message \<Rightarrow> hub \<Rightarrow> error option \<times> hub" where
  "register_client env client message h =
     (let clienttype = dict_get_default message ''client'' (VStr [])
      in if clienttype = VStr ''js'' then
           handle_message env client message
             (h\<lparr>JSCLIENTS := insert client (JSCLIENTS h),
                frames := frames h @ [Send client (MESSAGE h)]\<rparr>)
         else if clienttype = VStr ''py'' then
           handle_message env client message (h\<lparr>PYCLIENTS := insert client (PYCLIENTS h)\<rparr>)
         else (Some ValueError, h))"

definition unregister_client :: "client \<Rightarrow> hub \<Rightarrow> hub" where
  "unregister_client client h =
     h\<lparr>JSCLIENTS := JSCLIENTS h - {client}, PYCLIENTS := PYCLIENTS h - {client}\<rparr>"

text \<open>
  What \<^verbatim>\<open>serve_client\<close> does to the hub, one coroutine call at a time: the registration
  of a connection, a later message of a connection, the end of a connection. An exception
  ends the connection that raised it; the hub goes on from the state the call left.
\<close>

datatype operation =
    Register client message
  | Handle client message
  | Unregister client

fun step :: "env \<Rightarrow> operation \<Rightarrow> hub \<Rightarrow> error option \<times> hub" where
  "step env (Register client message) h = register_client env client message h"
| "step env (Handle client message) h = handle_message env client message h"
| "step env (Unregister client) h = (None, unregister_client client h)"

fun run :: "env \<Rightarrow> operation list \<Rightarrow> hub \<Rightarrow> hub" where
  "run env [] h = h"
| "run env (operation # operations) h = run env operations (snd (step env operation h))"

text \<open>The bound of the two history stacks.\<close>

definition bounded :: "hub \<Rightarrow> bool" where
  "bounded h = (length (BACKMESSAGES h) \<le> 20 \<and> length (FORWARDMESSAGES h) \<le> 20)"

subsection \<open>Example configuration and messages\<close>

text \<open>
  A configuration in which every directory exists, nbconvert is not installed and the
  editor returns; the renderers mark their output.
\<close>

definition demo_env :: env where
  "demo_env =
     \<lparr>args_home = ''/home/u'', args_stdin = ''md'', args_interactive = False,
      md_html = (\<lambda>wd s. ''<md>'' @ s),
      ipynb_html = (\<lambda>body. Inl ImportError),
      dir_html = (\<lambda>cwd. Inr (''<ls>'' @ py_str cwd)),
      chdir_ok = (\<lambda>p. True),
      nvim_edit = (\<lambda>addr p. None)\<rparr>"

text \<open>A file message whose body is already rendered, with an encoding that has no renderer.\<close>

definition rendered_weird :: message where
  "rendered_weird =
     [''fileEncoding'' \<mapsto> VStr ''weird'', ''fileEncoded'' \<mapsto> VBool True,
      ''fileBody'' \<mapsto> VStr ''<p>x</p>'', ''filename'' \<mapsto> VStr ''a.weird'']"

text \<open>The same, not yet rendered.\<close>

definition raw_weird :: message where
  "raw_weird =
     [''fileEncoding'' \<mapsto> VStr ''weird'', ''fileEncoded'' \<mapsto> VBool False,
      ''fileBody'' \<mapsto> VStr ''x'', ''filename'' \<mapsto> VStr ''a.weird'']"

text \<open>A message that declares no encoding and names no file, and one that names a file.\<close>

definition nameless :: message where
  "nameless =
     [''fileEncoding'' \<mapsto> VStr [], ''fileEncoded'' \<mapsto> VBool False,
      ''fileBody'' \<mapsto> VStr ''x'', ''filename'' \<mapsto> VStr []]"

definition notes_md :: message where
  "notes_md =
     [''fileEncoding'' \<mapsto> VStr [], ''fileEncoded'' \<mapsto> VBool False,
      ''fileBody'' \<mapsto> VStr ''x'', ''filename'' \<mapsto> VStr ''notes.md'']"

text \<open>
  The message of a producer for a directory, as the HTTP layer sends it; the request of
  the back button; the first message of a viewer.
\<close>

definition dir_message :: "string \<Rightarrow> message" where
  "dir_message cwd =
     [''client'' \<mapsto> VStr ''py'', ''func'' \<mapsto> VStr ''dir'', ''cwd'' \<mapsto> VStr cwd,
      ''cwdBody'' \<mapsto> VStr (''<ls>'' @ cwd), ''cwdEncoded'' \<mapsto> VBool True,
      ''filename'' \<mapsto> VStr [], ''fileBody'' \<mapsto> VStr [], ''fileCwd'' \<mapsto> VStr cwd,
      ''fileOpen'' \<mapsto> VBool False, ''fileEncoding'' \<mapsto> VStr [],
      ''fileEncoded'' \<mapsto> VBool False]"

definition back_request :: message where
  "back_request = [''func'' \<mapsto> VStr ''back'', ''client'' \<mapsto> VStr ''js'']"

definition hello :: message where
  "hello = [''func'' \<mapsto> VStr ''newjsclient'', ''client'' \<mapsto> VStr ''js'']"

text \<open>The entry of the back stack for a directory.\<close>

definition dir_entry :: "string \<Rightarrow> message" where
  "dir_entry cwd =
     [''client'' \<mapsto> VStr ''py'', ''func'' \<mapsto> VStr ''dir'', ''cwd'' \<mapsto> VStr cwd,
      ''cwdBody'' \<mapsto> VStr (''<ls>'' @ cwd), ''cwdEncoded'' \<mapsto> VBool True,
      ''filename'' \<mapsto> VStr [], ''fileBody'' \<mapsto> VStr [], ''fileCwd'' \<mapsto> VStr [],
      ''fileOpen'' \<mapsto> VBool False, ''fileEncoding'' \<mapsto> VStr [],
      ''fileEncoded'' \<mapsto> VBool False]"

definition hub0 :: hub where
  "hub0 = fresh_hub (VStr ''127.0.0.1:9878'') ''/home/u''"

text \<open>A hub whose two stacks are full, showing the directory \<^verbatim>\<open>/b/\<close>.\<close>

definition full_hub :: hub where
  "full_hub =
     hub0\<lparr>MESSAGE := dir_message ''/b/'',
          BACKMESSAGES := dir_entry ''/a/'' # dir_entry ''/z/'' # replicate 18 (dir_entry ''/z/''),
          FORWARDMESSAGES := replicate 20 (dir_entry ''/y/'')\<rparr>"

text \<open>
  A viewer connects to the fresh hub; one producer shows the directory \<^verbatim>\<open>/a/\<close>, a second
  one the directory \<^verbatim>\<open>/b/\<close>.
\<close>

definition visits :: "operation list" where
  "visits =
     [Register 1 hello,
      Register 2 (dir_message ''/a/''), Unregister 2,
      Register 3 (dir_message ''/b/''), Unregister 3]"

text \<open>The hub after these operations (see \<open>visits_reach\<close> below).\<close>

definition visited_ab :: hub where
  "visited_ab =
     hub0\<lparr>MESSAGE := dir_message ''/b/'',
          BACKMESSAGES := [dir_entry ''/b/'', dir_entry ''/a/''],
          JSCLIENTS := {1},
          proc_cwd := ''/home/u/b/'',
          frames := [Send 1 Map.empty, Broadcast {1} (dir_message ''/a/''),
                     Broadcast {1} (dir_message ''/b/'')]\<rparr>"

text \<open>A back request that says that a file is open.\<close>

definition back_open :: message where
  "back_open = back_request(''fileOpen'' \<mapsto> VBool True)"

text \<open>A directory message without the key \<^verbatim>\<open>fileOpen\<close> and with a key of its own.\<close>

definition partial_dir :: message where
  "partial_dir = (dir_message ''/a/'')(''fileOpen'' := None, ''extra'' \<mapsto> VStr ''x'')"

text \<open>
  A hub that shows the rendered file \<^verbatim>\<open>/a/notes.md\<close> to one viewer, and the message
  that the viewer's button for closing the file sends.
\<close>

definition file_state :: message where
  "file_state =
     [''client'' \<mapsto> VStr ''py'', ''func'' \<mapsto> VStr ''file'', ''cwd'' \<mapsto> VStr ''/a/'',
      ''cwdBody'' \<mapsto> VStr ''<ls>/a/'', ''cwdEncoded'' \<mapsto> VBool True,
      ''filename'' \<mapsto> VStr ''notes.md'', ''fileBody'' \<mapsto> VStr ''<md>x'',
      ''fileCwd'' \<mapsto> VStr ''/a/'', ''fileOpen'' \<mapsto> VBool True,
      ''fileEncoding'' \<mapsto> VStr ''md'', ''fileEncoded'' \<mapsto> VBool True]"

definition reading :: hub where
  "reading = hub0\<lparr>MESSAGE := file_state, BACKMESSAGES := [dir_entry ''/a/''], JSCLIENTS := {1}\<rparr>"

definition close_request :: message where
  "close_request =
     [''client'' \<mapsto> VStr ''js'', ''func'' \<mapsto> VStr ''dir'', ''cwd'' \<mapsto> VStr ''/a/'',
      ''cwdBody'' \<mapsto> VStr ''<ls>/a/'', ''cwdEncoded'' \<mapsto> VBool True,
      ''filename'' \<mapsto> VStr [], ''fileBody'' \<mapsto> VStr [],
      ''fileCwd'' \<mapsto> VStr [], ''fileOpen'' \<mapsto> VBool False,
      ''fileEncoding'' \<mapsto> VStr [], ''fileEncoded'' \<mapsto> VBool True,
      ''forceClose'' \<mapsto> VBool True]"

text \<open>
  A forced-close request that carries no file field other than the empty
  \<^verbatim>\<open>filename\<close>.
\<close>

definition bare_close :: message where
  "bare_close =
     [''client'' \<mapsto> VStr ''js'', ''func'' \<mapsto> VStr ''dir'', ''cwd'' \<mapsto> VStr ''/a/'',
      ''cwdBody'' \<mapsto> VStr ''<ls>/a/'', ''cwdEncoded'' \<mapsto> VBool True,
      ''filename'' \<mapsto> VStr [], ''forceClose'' \<mapsto> VBool True]"



section \<open>Properties of the renderer dispatch\<close>

declare encode.simps [simp del] encode_traced.simps [simp del]

lemma encoded_upd: "k \<noteq> ''fileEncoded'' \<Longrightarrow> encoded (m(k \<mapsto> v)) = encoded m"
  by (simp add: encoded_def dict_get_default_def)

lemma encoded_True: "encoded (m(''fileEncoded'' \<mapsto> VBool True))"
  by (simp add: encoded_def dict_get_default_def)

lemma render_md_encoded: "render_md env wd m = Inr m' \<Longrightarrow> encoded m' = encoded m"
  by (auto simp: render_md_def encoded_upd split: sum.splits)

lemma render_txt_encoded: "render_txt env wd m = Inr m' \<Longrightarrow> encoded m' = encoded m"
  by (auto simp: render_txt_def encoded_upd split: sum.splits)

lemma render_ipynb_encoded: "render_ipynb env m = Inr m' \<Longrightarrow> encoded m' = encoded m"
  by (auto simp: render_ipynb_def encoded_upd split: sum.splits if_splits)

lemma resolve_encoding_encoded:
  "resolve_encoding env m = Inr (enc, m') \<Longrightarrow> encoded m' = encoded m"
  by (auto simp: resolve_encoding_def Let_def encoded_upd split: sum.splits if_splits)

lemma encode_sets_flag:
  "encode env wd m = Inr m' \<Longrightarrow> encoded m'"
proof (induction env wd m rule: encode.induct)
  case (1 env wd message)
  show ?case
  proof (cases "encoded message")
    case True
    with "1.prems" show ?thesis by (simp add: encode.simps)
  next
    case False
    note nf = False
    from "1.prems" nf obtain encoding message1 where
      res: "resolve_encoding env (message(''fileEncoded'' \<mapsto> VBool True)) = Inr (encoding, message1)"
      by (auto simp: encode.simps split: sum.splits)
    then have e1: "encoded message1"
      by (simp add: resolve_encoding_encoded encoded_True)
    consider (md) "encoding = VStr ''md''"
      | (ipynb) "encoding = VStr ''ipynb''"
      | (plain) "encoding = VStr ''txt''"
      | (html) "encoding \<noteq> VStr ''md''" "encoding \<noteq> VStr ''ipynb''" "encoding \<noteq> VStr ''txt''"
          "dict_item message1 ''fileEncoding'' = Inr (VStr ''html'')"
      | (other) "encoding \<noteq> VStr ''md''" "encoding \<noteq> VStr ''ipynb''" "encoding \<noteq> VStr ''txt''"
          "dict_item message1 ''fileEncoding'' \<noteq> Inr (VStr ''html'')"
      by blast
    then show ?thesis
    proof cases
      case md
      with "1.prems" nf res e1 show ?thesis
        by (simp add: encode.simps render_md_encoded)
    next
      case ipynb
      with "1.prems" nf res e1 show ?thesis
        by (auto simp: encode.simps render_ipynb_encoded render_txt_encoded encoded_upd
            split: sum.splits option.splits)
    next
      case plain
      with "1.prems" nf res e1 show ?thesis
        by (simp add: encode.simps render_txt_encoded)
    next
      case html
      with "1.prems" nf res e1 show ?thesis
        by (simp add: encode.simps)
    next
      case other
      with "1.prems" nf res have
        "encode env wd (message1(''fileEncoding'' \<mapsto> VStr ''txt'', ''fileEncoded'' \<mapsto> VBool False)) = Inr m'"
        by (simp add: encode.simps)
      with "1.IH" [OF nf res refl] other show ?thesis
        by blast
    qed
  qed
qed

lemma encode_already: "encoded m \<Longrightarrow> encode env wd m = Inr m"
  by (simp add: encode.simps)

text \<open>
  Claim C3. \<^verbatim>\<open>encode\<close> returns a message whose \<^verbatim>\<open>fileEncoded\<close> flag is set as it
  is, every field unchanged; and whenever \<^verbatim>\<open>encode\<close> returns, it returns a message
  whose flag is set, so that a second application returns what the first returned (and
  the exception of the first application is the exception of both).
\<close>

theorem encode_idempotent:
  "(encoded m \<longrightarrow> encode env wd m = Inr m) \<and>
   (case encode env wd m of Inl e \<Rightarrow> Inl e | Inr m' \<Rightarrow> encode env wd m') = encode env wd m"
  using encode_sets_flag [of env wd m] encode_already [of _ env wd]
  by (auto split: sum.splits)

theorem encode_idempotent_witness:
  "encoded rendered_weird \<and> encode demo_env ''/home/u/'' rendered_weird = Inr rendered_weird"
  using encode_idempotent [of rendered_weird demo_env "''/home/u/''"]
  by (simp add: rendered_weird_def encoded_def dict_get_default_def)




lemma resolve_declared:
  "truthy (dict_get m ''fileEncoding'') \<Longrightarrow>
   resolve_encoding env m = Inr (dict_get m ''fileEncoding'', m)"
  by (simp add: resolve_encoding_def)






text \<open>
  Claim C5, as amended. For a message whose \<^verbatim>\<open>fileEncoded\<close> flag is not set, whose
  declared encoding is a non-empty string other than \<^verbatim>\<open>md\<close>, \<^verbatim>\<open>txt\<close>, \<^verbatim>\<open>html\<close> and
  \<^verbatim>\<open>ipynb\<close>, and which has a \<^verbatim>\<open>fileBody\<close>, \<^verbatim>\<open>encode\<close> returns the message with
  \<^verbatim>\<open>fileEncoding\<close> \<^verbatim>\<open>"txt"\<close>, the flag set, and as body the HTML of the content between
  two code fences.
\<close>

theorem encode_unknown_to_txt:
  assumes "\<not> encoded m"
    and "m ''fileEncoding'' = Some (VStr enc)"
    and "enc \<noteq> []"
    and "enc \<notin> {''md'', ''txt'', ''html'', ''ipynb''}"
    and "m ''fileBody'' = Some body"
  shows "encode env wd m =
           Inr (m(''fileEncoding'' \<mapsto> VStr ''txt'', ''fileEncoded'' \<mapsto> VBool True,
                  ''fileBody'' \<mapsto>
                    VStr (md_html env wd (''```'' @ [CHR 0x0A] @ py_str body @ [CHR 0x0A] @ ''```''))))"
proof -
  let ?m1 = "m(''fileEncoded'' \<mapsto> VBool True)"
  let ?m2 = "?m1(''fileEncoding'' \<mapsto> VStr ''txt'', ''fileEncoded'' \<mapsto> VBool False)"
  let ?m3 = "?m2(''fileEncoded'' \<mapsto> VBool True)"
  have r1: "resolve_encoding env ?m1 = Inr (VStr enc, ?m1)"
    using assms(2,3) resolve_declared [of ?m1 env]
    by (simp add: dict_get_def dict_get_default_def)
  have step1: "encode env wd m = encode env wd ?m2"
    using assms r1 by (subst encode.simps) (simp add: dict_item_def)
  have r2: "resolve_encoding env ?m3 = Inr (VStr ''txt'', ?m3)"
    using resolve_declared [of ?m3 env]
    by (simp add: dict_get_def dict_get_default_def)
  have ne: "\<not> encoded ?m2"
    by (simp add: encoded_def dict_get_default_def)
  have step2: "encode env wd ?m2 = render_txt env wd ?m3"
    using ne r2 by (subst encode.simps) simp
  have "render_txt env wd ?m3 =
        Inr (?m3(''fileBody'' \<mapsto>
               VStr (md_html env wd (''```'' @ [CHR 0x0A] @ py_str body @ [CHR 0x0A] @ ''```''))))"
    using assms(5) by (simp add: render_txt_def dict_item_def txt2body_def md2body_def)
  moreover have "?m3 = m(''fileEncoding'' \<mapsto> VStr ''txt'', ''fileEncoded'' \<mapsto> VBool True)"
    by (rule ext) simp
  ultimately show ?thesis
    using step1 step2 by simp
qed

theorem encode_unknown_to_txt_witness:
  "\<not> encoded raw_weird \<and>
   encode demo_env ''/home/u/'' raw_weird =
     Inr (raw_weird(''fileEncoding'' \<mapsto> VStr ''txt'', ''fileEncoded'' \<mapsto> VBool True,
            ''fileBody'' \<mapsto> VStr (''<md>```'' @ [CHR 0x0A] @ ''x'' @ [CHR 0x0A] @ ''```'')))"
  using encode_unknown_to_txt [of raw_weird "''weird''" "VStr ''x''" demo_env "''/home/u/''"]
  by (simp add: raw_weird_def encoded_def dict_get_default_def demo_env_def)

text \<open>
  The claim without the condition on the flag fails: a message that declares the encoding
  \<^verbatim>\<open>weird\<close> and whose flag is set comes back as it is, with \<^verbatim>\<open>fileEncoding\<close>
  \<^verbatim>\<open>"weird"\<close>.
\<close>

theorem encode_unknown_counterexample:
  "rendered_weird ''fileEncoding'' = Some (VStr ''weird'') \<and>
   rendered_weird ''fileBody'' = Some (VStr ''<p>x</p>'') \<and>
   encode demo_env ''/home/u/'' rendered_weird = Inr rendered_weird \<and>
   rendered_weird ''fileEncoding'' \<noteq> Some (VStr ''txt'')"
  by (simp add: encode.simps rendered_weird_def encoded_def dict_get_default_def)

text \<open>
  Claim C10. When \<^verbatim>\<open>fileEncoding\<close> and \<^verbatim>\<open>filename\<close> are both the empty string, the
  inference of the encoding raises \<^verbatim>\<open>IndexError\<close>, and so does \<^verbatim>\<open>encode\<close> on a message
  that is not yet encoded. When \<^verbatim>\<open>fileEncoding\<close> is not empty the inference is skipped,
  and when \<^verbatim>\<open>filename\<close> is a non-empty string it returns an encoding.
\<close>

theorem inference_needs_filename:
  "(dict_get m ''fileEncoding'' = VStr [] \<and> dict_get m ''filename'' = VStr [] \<longrightarrow>
      resolve_encoding env m = Inl IndexError \<and>
      (\<not> encoded m \<longrightarrow> encode env wd m = Inl IndexError)) \<and>
   (truthy (dict_get m ''fileEncoding'') \<longrightarrow>
      resolve_encoding env m = Inr (dict_get m ''fileEncoding'', m)) \<and>
   (\<forall>f. dict_get m ''filename'' = VStr f \<and> f \<noteq> [] \<longrightarrow> (\<exists>r. resolve_encoding env m = Inr r))"
proof (intro conjI impI allI)
  assume a: "dict_get m ''fileEncoding'' = VStr [] \<and> dict_get m ''filename'' = VStr []"
  then show r: "resolve_encoding env m = Inl IndexError"
    by (simp add: resolve_encoding_def infer_encoding_def)
  assume ne: "\<not> encoded m"
  have "dict_get (m(''fileEncoded'' \<mapsto> VBool True)) ''fileEncoding'' = VStr []"
       "dict_get (m(''fileEncoded'' \<mapsto> VBool True)) ''filename'' = VStr []"
    using a by (simp_all add: dict_get_def dict_get_default_def)
  then have "resolve_encoding env (m(''fileEncoded'' \<mapsto> VBool True)) = Inl IndexError"
    by (simp add: resolve_encoding_def infer_encoding_def)
  with ne show "encode env wd m = Inl IndexError"
    by (subst encode.simps) simp
next
  assume "truthy (dict_get m ''fileEncoding'')"
  then show "resolve_encoding env m = Inr (dict_get m ''fileEncoding'', m)"
    by (rule resolve_declared)
next
  fix f
  assume "dict_get m ''filename'' = VStr f \<and> f \<noteq> []"
  then show "\<exists>r. resolve_encoding env m = Inr r"
    by (cases f) (auto simp: resolve_encoding_def infer_encoding_def Let_def)
qed

theorem inference_needs_filename_witness:
  "resolve_encoding demo_env nameless = Inl IndexError \<and>
   encode demo_env ''/home/u/'' nameless = Inl IndexError \<and>
   resolve_encoding demo_env raw_weird = Inr (VStr ''weird'', raw_weird) \<and>
   (\<exists>r. resolve_encoding demo_env notes_md = Inr r)"
  using inference_needs_filename [of nameless demo_env "''/home/u/''"]
        inference_needs_filename [of raw_weird demo_env "''/home/u/''"]
        inference_needs_filename [of notes_md demo_env "''/home/u/''"]
  by (simp add: nameless_def raw_weird_def notes_md_def dict_get_def dict_get_default_def encoded_def)

text \<open>The scenario of \<^verbatim>\<open>notes.md\<close>: the encoding \<^verbatim>\<open>md\<close> is inferred from the name.\<close>

lemma notes_md_inferred:
  "encode demo_env ''/home/u/'' notes_md =
     Inr (notes_md(''fileEncoded'' \<mapsto> VBool True, ''fileEncoding'' \<mapsto> VStr ''md'',
                   ''fileBody'' \<mapsto> VStr ''<md>x''))"
  by (simp add: encode.simps notes_md_def encoded_def dict_get_def dict_get_default_def
      resolve_encoding_def infer_encoding_def splitext_def Let_def render_md_def dict_item_def
      md2body_def demo_env_def)

section \<open>Properties of the hub\<close>

declare handle_message.simps [simp del]

lemma enter_stacks:
  "enter env message h = (r, h') \<Longrightarrow>
     MESSAGE h' = MESSAGE h \<and> BACKMESSAGES h' = BACKMESSAGES h \<and>
     FORWARDMESSAGES h' = FORWARDMESSAGES h \<and> frames h' = frames h \<and>
     JSCLIENTS h' = JSCLIENTS h \<and> PYCLIENTS h' = PYCLIENTS h"
  by (auto simp: enter_def chdir_def Let_def split: option.splits val.splits if_splits)

lemma handle_enter_error:
  "enter env m h = (Some e, h2) \<Longrightarrow> handle_message env c m h = (Some e, h2)"
  by (subst handle_message.simps) (simp add: Let_def)

lemma handle_back_short:
  assumes "enter env m h = (None, h2)" "dict_get m ''func'' = VStr ''back''"
    and "length (BACKMESSAGES h2) < 2"
  shows "handle_message env c m h = (None, h2)"
  using assms
  by (subst handle_message.simps) (auto simp: Let_def split: list.splits)

lemma handle_back_step:
  assumes "enter env m h = (None, h2)" "dict_get m ''func'' = VStr ''back''"
    and "BACKMESSAGES h2 = newest # previous # rest"
  shows "handle_message env c m h =
           handle_message env c
             (if truthy (dict_get (m(''nvimAddress'' := None)) ''fileOpen'') then newest else previous)
             (cap_forward
               (if truthy (dict_get (m(''nvimAddress'' := None)) ''fileOpen'')
                then h2\<lparr>BACKMESSAGES := previous # rest\<rparr>
                else h2\<lparr>FORWARDMESSAGES := newest # FORWARDMESSAGES h2,
                        BACKMESSAGES := rest\<rparr>))"
  using assms
  by (subst handle_message.simps) (simp add: Let_def)

lemma handle_dir:
  assumes "enter env m h = (None, h2)" "dict_get m ''func'' = VStr ''dir''"
  shows "handle_message env c m h =
           (case prepare_dir env (MESSAGE h2) (m(''nvimAddress'' := None)) of
              Inl e \<Rightarrow> (Some e, h2)
            | Inr message1 \<Rightarrow> publish env message1 h2)"
  using assms
  by (subst handle_message.simps) (simp add: Let_def)

lemma handle_file:
  assumes "enter env m h = (None, h2)" "dict_get m ''func'' = VStr ''file''"
  shows "handle_message env c m h =
           (case encode env (proc_cwd h2) (m(''nvimAddress'' := None)) of
              Inl e \<Rightarrow> (Some e, h2)
            | Inr message1 \<Rightarrow> publish env message1 h2)"
  using assms
  by (subst handle_message.simps) (simp add: Let_def)

lemma handle_other:
  assumes "enter env m h = (None, h2)"
    and "dict_get m ''func'' \<notin> {VStr ''back'', VStr ''dir'', VStr ''file''}"
  shows "MESSAGE (snd (handle_message env c m h)) = MESSAGE h2 \<and>
         BACKMESSAGES (snd (handle_message env c m h)) = BACKMESSAGES h2 \<and>
         FORWARDMESSAGES (snd (handle_message env c m h)) = FORWARDMESSAGES h2 \<and>
         JSCLIENTS (snd (handle_message env c m h)) = JSCLIENTS h2 \<and>
         PYCLIENTS (snd (handle_message env c m h)) = PYCLIENTS h2"
  using assms
  by (subst (1 2 3 4 5) handle_message.simps) (simp add: Let_def)


lemma broadcast_fields [simp]:
  "BACKMESSAGES (broadcast h) = BACKMESSAGES h"
  "FORWARDMESSAGES (broadcast h) = FORWARDMESSAGES h"
  "MESSAGE (broadcast h) = MESSAGE h"
  "JSCLIENTS (broadcast h) = JSCLIENTS h"
  "PYCLIENTS (broadcast h) = PYCLIENTS h"
  by (simp_all add: broadcast_def)

lemma cap_back_fields [simp]:
  "FORWARDMESSAGES (cap_back h) = FORWARDMESSAGES h"
  "MESSAGE (cap_back h) = MESSAGE h"
  "JSCLIENTS (cap_back h) = JSCLIENTS h"
  "PYCLIENTS (cap_back h) = PYCLIENTS h"
  "frames (cap_back h) = frames h"
  by (simp_all add: cap_back_def)

lemma cap_forward_fields [simp]:
  "BACKMESSAGES (cap_forward h) = BACKMESSAGES h"
  "MESSAGE (cap_forward h) = MESSAGE h"
  "JSCLIENTS (cap_forward h) = JSCLIENTS h"
  "PYCLIENTS (cap_forward h) = PYCLIENTS h"
  "frames (cap_forward h) = frames h"
  by (simp_all add: cap_forward_def)

lemma cap_back_length: "length (BACKMESSAGES h) \<le> 21 \<Longrightarrow> length (BACKMESSAGES (cap_back h)) \<le> 20"
  by (auto simp: cap_back_def)

lemma cap_forward_length:
  "length (FORWARDMESSAGES h) \<le> 21 \<Longrightarrow> length (FORWARDMESSAGES (cap_forward h)) \<le> 20"
  by (auto simp: cap_forward_def)

lemma send_fields [simp]:
  "FORWARDMESSAGES (snd (send_message_to_all_js_clients h)) = FORWARDMESSAGES h"
  "MESSAGE (snd (send_message_to_all_js_clients h)) = MESSAGE h"
  "JSCLIENTS (snd (send_message_to_all_js_clients h)) = JSCLIENTS h"
  "PYCLIENTS (snd (send_message_to_all_js_clients h)) = PYCLIENTS h"
  by (auto simp: send_message_to_all_js_clients_def split: sum.splits bool.splits)

lemma send_bounded: "bounded h \<Longrightarrow> bounded (snd (send_message_to_all_js_clients h))"
  by (auto simp: bounded_def send_message_to_all_js_clients_def cap_back_length
      split: sum.splits bool.splits)

lemma publish_fields [simp]:
  "FORWARDMESSAGES (snd (publish env m h)) = FORWARDMESSAGES h"
  "MESSAGE (snd (publish env m h)) = MESSAGE h ++ m"
  "JSCLIENTS (snd (publish env m h)) = JSCLIENTS h"
  "PYCLIENTS (snd (publish env m h)) = PYCLIENTS h"
  by (auto simp: publish_def Let_def split: option.splits)

lemma publish_bounded: "bounded h \<Longrightarrow> bounded (snd (publish env m h))"
proof -
  assume "bounded h"
  then have "bounded (h\<lparr>MESSAGE := MESSAGE h ++ m\<rparr>)" by (simp add: bounded_def)
  then show ?thesis
    using send_bounded [of "h\<lparr>MESSAGE := MESSAGE h ++ m\<rparr>"]
    by (auto simp: publish_def Let_def split: option.splits)
qed

lemma enter_bounded: "enter env m h = (r, h2) \<Longrightarrow> bounded h2 = bounded h"
  using enter_stacks [of env m h r h2] by (simp add: bounded_def)

lemma handle_bounded: "bounded h \<Longrightarrow> bounded (snd (handle_message env c m h))"
proof (induction env c m h rule: handle_message.induct)
  case (1 env client message0 h0)
  let ?m = "message0(''nvimAddress'' := None)"
  let ?func = "dict_get message0 ''func''"
  obtain r h2 where e: "enter env message0 h0 = (r, h2)"
    by (cases "enter env message0 h0")
  have b2: "bounded h2" using e "1.prems" by (simp add: enter_bounded)
  show ?case
  proof (cases r)
    case (Some err)
    with e b2 show ?thesis by (simp add: handle_enter_error)
  next
    case rNone: None
    note e' = e [unfolded rNone]
    consider (goback) "?func = VStr ''back''" | (dir) "?func = VStr ''dir''"
      | (fil) "?func = VStr ''file''"
      | (other) "?func \<notin> {VStr ''back'', VStr ''dir'', VStr ''file''}"
      by blast
    then show ?thesis
    proof cases
      case other
      with handle_other [OF e' other, of client] b2 show ?thesis
        by (simp add: bounded_def)
    next
      case dir
      with b2 show ?thesis
        by (auto simp: handle_dir [OF e' dir] publish_bounded split: sum.splits)
    next
      case fil
      with b2 show ?thesis
        by (auto simp: handle_file [OF e' fil] publish_bounded split: sum.splits)
    next
      case goback
      show ?thesis
      proof (cases "BACKMESSAGES h2")
        case Nil
        with b2 show ?thesis by (simp add: handle_back_short [OF e' goback])
      next
        case (Cons newest l)
        show ?thesis
        proof (cases l)
          case Nil
          with Cons b2 show ?thesis by (simp add: handle_back_short [OF e' goback])
        next
          case (Cons previous rest)
          note bk = \<open>BACKMESSAGES h2 = newest # l\<close> [unfolded Cons]
          let ?h3 = "(if truthy (dict_get ?m ''fileOpen'')
                      then h2\<lparr>BACKMESSAGES := previous # rest\<rparr>
                      else h2\<lparr>FORWARDMESSAGES := newest # FORWARDMESSAGES h2,
                              BACKMESSAGES := rest\<rparr>)"
          let ?m1 = "(if truthy (dict_get ?m ''fileOpen'') then newest else previous)"
          have b4: "bounded (cap_forward ?h3)"
            using b2 bk by (auto simp: bounded_def cap_forward_length)
          from goback have t1: "\<not> \<not> truthy ?func" and t2: "?func \<noteq> VStr ''numJSClients''"
            and t3: "?func \<noteq> VStr ''editFile''"
            by simp_all
          have ih: "bounded (snd (handle_message env client ?m1 (cap_forward ?h3)))"
            using b4
            by (rule "1.IH" [OF refl refl e' [symmetric] refl t1 t2 t3 goback
                  \<open>BACKMESSAGES h2 = newest # l\<close> Cons refl refl])
          with handle_back_step [OF e' goback bk, of client] show ?thesis by simp
        qed
      qed
    qed
  qed
qed

lemma register_bounded: "bounded h \<Longrightarrow> bounded (snd (register_client env c m h))"
  using handle_bounded [of "h\<lparr>JSCLIENTS := insert c (JSCLIENTS h), frames := frames h @ [Send c (MESSAGE h)]\<rparr>" env c m]
        handle_bounded [of "h\<lparr>PYCLIENTS := insert c (PYCLIENTS h)\<rparr>" env c m]
  by (simp add: register_client_def Let_def bounded_def)

lemma step_bounded: "bounded h \<Longrightarrow> bounded (snd (step env operation h))"
  by (cases operation)
     (simp_all add: handle_bounded register_bounded, simp add: bounded_def unregister_client_def)

lemma run_bounded: "bounded h \<Longrightarrow> bounded (run env operations h)"
  by (induction operations arbitrary: h) (simp_all add: step_bounded)

lemma handle_forward:
  assumes "dict_get m ''func'' \<noteq> VStr ''back''"
  shows "FORWARDMESSAGES (snd (handle_message env c m h)) = FORWARDMESSAGES h"
proof -
  obtain r h2 where e: "enter env m h = (r, h2)" by (cases "enter env m h")
  have f2: "FORWARDMESSAGES h2 = FORWARDMESSAGES h"
    using enter_stacks [OF e] by simp
  show ?thesis
  proof (cases r)
    case (Some err)
    with e f2 show ?thesis by (simp add: handle_enter_error)
  next
    case None
    note e' = e [unfolded None]
    consider (isdir) "dict_get m ''func'' = VStr ''dir''"
      | (isfile) "dict_get m ''func'' = VStr ''file''"
      | (other) "dict_get m ''func'' \<notin> {VStr ''back'', VStr ''dir'', VStr ''file''}"
      using assms by blast
    then show ?thesis
    proof cases
      case isdir
      with f2 show ?thesis
        by (auto simp: handle_dir [OF e' isdir] split: sum.splits)
    next
      case isfile
      with f2 show ?thesis
        by (auto simp: handle_file [OF e' isfile] split: sum.splits)
    next
      case other
      with handle_other [OF e' other, of c] f2 show ?thesis by simp
    qed
  qed
qed

lemma send_push:
  assumes "cwd_changed h = Inr True" "snapshot (MESSAGE h) = Inr entry"
  shows "BACKMESSAGES (snd (send_message_to_all_js_clients h)) =
           BACKMESSAGES (cap_back (h\<lparr>BACKMESSAGES := entry # BACKMESSAGES h\<rparr>))"
  using assms by (simp add: send_message_to_all_js_clients_def)

text \<open>
  Claim C9. A \<^verbatim>\<open>back\<close> message handled while the back stack holds fewer than two
  entries leaves the canonical state, the back stack and the forward stack as they are and
  writes no frame to any websocket, whether the call returns or raises.
\<close>

theorem back_noop:
  assumes "dict_get m ''func'' = VStr ''back''"
    and "length (BACKMESSAGES h) < 2"
  shows "MESSAGE (snd (handle_message env c m h)) = MESSAGE h \<and>
         BACKMESSAGES (snd (handle_message env c m h)) = BACKMESSAGES h \<and>
         FORWARDMESSAGES (snd (handle_message env c m h)) = FORWARDMESSAGES h \<and>
         frames (snd (handle_message env c m h)) = frames h"
proof -
  obtain r h2 where e: "enter env m h = (r, h2)" by (cases "enter env m h")
  note fr = enter_stacks [OF e]
  show ?thesis
  proof (cases r)
    case (Some err)
    with e fr show ?thesis by (simp add: handle_enter_error)
  next
    case None
    with e fr assms show ?thesis
      by (simp add: handle_back_short [of env m h h2])
  qed
qed

theorem back_noop_witness:
  "dict_get back_request ''func'' = VStr ''back'' \<and> length (BACKMESSAGES hub0) < 2 \<and>
   MESSAGE (snd (handle_message demo_env 1 back_request hub0)) = MESSAGE hub0 \<and>
   BACKMESSAGES (snd (handle_message demo_env 1 back_request hub0)) = [] \<and>
   FORWARDMESSAGES (snd (handle_message demo_env 1 back_request hub0)) = [] \<and>
   frames (snd (handle_message demo_env 1 back_request hub0)) = []"
  using back_noop [of back_request hub0 demo_env 1]
  by (simp add: back_request_def dict_get_def dict_get_default_def hub0_def fresh_hub_def)

lemma full1: "cwd_changed full_hub = Inr True"
  by (simp add: cwd_changed_def full_hub_def hub0_def fresh_hub_def dict_item_def dir_message_def dir_entry_def)

lemma full2: "snapshot (MESSAGE full_hub) = Inr (dir_entry ''/b/'')"
  by (simp add: snapshot_def full_hub_def hub0_def fresh_hub_def dict_item_def dir_message_def dir_entry_def)

lemma full3: "enter demo_env back_request full_hub = (None, full_hub)"
  by (simp add: enter_def full_hub_def hub0_def fresh_hub_def back_request_def validate_message_def
       dict_get_default_def Let_def)

text \<open>
  Claim C8. From the fresh hub every sequence of operations leaves both stacks with at
  most 20 entries, and every operation keeps the bound, also when it raises. A push on a
  back stack of 20 entries drops its last, oldest entry, and so does the push on a forward
  stack of 20 entries that a \<^verbatim>\<open>back\<close> request makes.
\<close>

theorem stacks_bounded:
  "bounded (run env operations (fresh_hub addr wd)) \<and>
   (bounded h \<longrightarrow> bounded (snd (step env operation h))) \<and>
   (length (BACKMESSAGES h) = 20 \<and> cwd_changed h = Inr True \<and> snapshot (MESSAGE h) = Inr entry \<longrightarrow>
      BACKMESSAGES (snd (send_message_to_all_js_clients h)) = entry # butlast (BACKMESSAGES h)) \<and>
   (length (FORWARDMESSAGES h) = 20 \<and> enter env m h = (None, h2) \<and>
    dict_get m ''func'' = VStr ''back'' \<and> \<not> truthy (dict_get m ''fileOpen'') \<and>
    BACKMESSAGES h = newest # previous # rest \<and> dict_get previous ''func'' \<noteq> VStr ''back'' \<longrightarrow>
      FORWARDMESSAGES (snd (handle_message env c m h)) = newest # butlast (FORWARDMESSAGES h))"
proof (intro conjI impI)
  have "bounded (fresh_hub addr wd)" by (simp add: bounded_def fresh_hub_def)
  then show "bounded (run env operations (fresh_hub addr wd))" by (rule run_bounded)
next
  assume "bounded h"
  then show "bounded (snd (step env operation h))" by (rule step_bounded)
next
  assume a: "length (BACKMESSAGES h) = 20 \<and> cwd_changed h = Inr True \<and> snapshot (MESSAGE h) = Inr entry"
  then have "BACKMESSAGES h \<noteq> []" by auto
  with a show "BACKMESSAGES (snd (send_message_to_all_js_clients h)) = entry # butlast (BACKMESSAGES h)"
    by (simp add: send_push cap_back_def)
next
  assume a: "length (FORWARDMESSAGES h) = 20 \<and> enter env m h = (None, h2) \<and>
    dict_get m ''func'' = VStr ''back'' \<and> \<not> truthy (dict_get m ''fileOpen'') \<and>
    BACKMESSAGES h = newest # previous # rest \<and> dict_get previous ''func'' \<noteq> VStr ''back''"
  then have e: "enter env m h = (None, h2)" and f: "dict_get m ''func'' = VStr ''back''" by simp_all
  note fr = enter_stacks [OF e]
  from a fr have bk: "BACKMESSAGES h2 = newest # previous # rest" by simp
  from a have nfo: "\<not> truthy (dict_get (m(''nvimAddress'' := None)) ''fileOpen'')"
    by (simp add: dict_get_def dict_get_default_def)
  from a have "FORWARDMESSAGES h \<noteq> []" by auto
  with a fr nfo show "FORWARDMESSAGES (snd (handle_message env c m h)) = newest # butlast (FORWARDMESSAGES h)"
    by (simp add: handle_back_step [OF e f bk] handle_forward cap_forward_def)
qed

theorem stacks_bounded_witness:
  "bounded (run demo_env [Register 1 hello, Register 2 (dir_message ''/a/'')] hub0) \<and>
   bounded full_hub \<and> bounded (snd (step demo_env (Handle 1 back_request) full_hub)) \<and>
   length (BACKMESSAGES full_hub) = 20 \<and>
   BACKMESSAGES (snd (send_message_to_all_js_clients full_hub)) =
     dir_entry ''/b/'' # butlast (BACKMESSAGES full_hub) \<and>
   length (FORWARDMESSAGES full_hub) = 20 \<and>
   FORWARDMESSAGES (snd (handle_message demo_env 1 back_request full_hub)) =
     dir_entry ''/a/'' # butlast (FORWARDMESSAGES full_hub)"
proof -
  have b: "bounded full_hub"
    by (simp add: bounded_def full_hub_def hub0_def fresh_hub_def)
  have l: "length (BACKMESSAGES full_hub) = 20" "length (FORWARDMESSAGES full_hub) = 20"
    by (simp_all add: full_hub_def hub0_def fresh_hub_def)
  have bk: "BACKMESSAGES full_hub = dir_entry ''/a/'' # dir_entry ''/z/'' # replicate 18 (dir_entry ''/z/'')"
    by (simp add: full_hub_def hub0_def fresh_hub_def)
  have f: "dict_get back_request ''func'' = VStr ''back''" "\<not> truthy (dict_get back_request ''fileOpen'')"
    "dict_get (dir_entry ''/z/'') ''func'' \<noteq> VStr ''back''"
    by (simp_all add: back_request_def dir_entry_def dict_get_def dict_get_default_def)
  show ?thesis
    using stacks_bounded [where env = demo_env and addr = "VStr ''127.0.0.1:9878''" and wd = "''/home/u''"
        and operations = "[Register 1 hello, Register 2 (dir_message ''/a/'')]"
        and h = full_hub and operation = "Handle 1 back_request" and entry = "dir_entry ''/b/''"
        and m = back_request and ?h2.0 = full_hub and newest = "dir_entry ''/a/''"
        and previous = "dir_entry ''/z/''" and rest = "replicate 18 (dir_entry ''/z/'')" and c = 1]
      b l bk f full1 full2 full3
    by (simp add: hub0_def)
qed

text \<open>The definitions that evaluate the hub on the example messages.\<close>

lemmas eval_defs =
  enter_def validate_message_def chdir_def dict_get_def dict_get_default_def dict_item_def
  prepare_dir_def publish_def send_message_to_all_js_clients_def cwd_changed_def snapshot_def
  broadcast_def cap_back_def cap_forward_def register_client_def unregister_client_def
  Let_def hub0_def fresh_hub_def demo_env_def

lemmas visit_defs =
  visited_ab_def visits_def hello_def dir_message_def dir_entry_def back_request_def back_open_def

lemma copy_items_result:
  "copy_items M ks m = Inr m1 \<Longrightarrow>
     (\<forall>k. m1 k = (if k \<in> set ks then M k else m k))"
proof (induction ks arbitrary: m)
  case Nil
  then show ?case by simp
next
  case (Cons k ks)
  then obtain v where v: "M k = Some v" and r: "copy_items M ks (m(k \<mapsto> v)) = Inr m1"
    by (auto simp: dict_item_def split: option.splits)
  from Cons.IH [OF r] v show ?case by auto
qed

lemma prepare_dir_merge:
  assumes "\<not> truthy (dict_get m ''filename'')" "truthy (dict_get M ''filename'')"
    and "\<not> truthy (dict_get_default m ''forceClose'' (VBool False))"
    and "prepare_dir env M m = Inr m1"
    and "k \<in> set file_keys"
  shows "m1 k = M k"
proof -
  from assms(1-4) obtain m0 where c: "copy_items M file_keys (m(''forceClose'' := None)) = Inr m0"
    and r: "m1 = m0 \<or> (\<exists>html. m1 = m0(''cwdBody'' \<mapsto> VStr html, ''cwdEncoded'' \<mapsto> VBool True))"
    by (auto simp: prepare_dir_def Let_def split: sum.splits if_splits)
  from copy_items_result [OF c] assms(5) have "m0 k = M k" by simp
  moreover from assms(5) have "k \<noteq> ''cwdBody''" "k \<noteq> ''cwdEncoded''"
    by (auto simp: file_keys_def)
  ultimately show ?thesis using r by auto
qed

lemma prepare_dir_forced:
  assumes "\<not> truthy (dict_get m ''filename'')" "truthy (dict_get M ''filename'')"
    and "truthy (dict_get_default m ''forceClose'' (VBool False))"
    and "prepare_dir env M m = Inr m1"
  shows "m1 ''forceClose'' = None \<and> (\<forall>k \<in> set file_keys. m1 k = m k)"
proof -
  let ?m0 = "m(''forceClose'' := None)"
  from assms have r: "m1 = ?m0 \<or> (\<exists>html. m1 = ?m0(''cwdBody'' \<mapsto> VStr html, ''cwdEncoded'' \<mapsto> VBool True))"
    by (auto simp: prepare_dir_def Let_def split: sum.splits if_splits)
  then show ?thesis by (auto simp: file_keys_def)
qed

text \<open>
  Claim C6, as amended. A \<^verbatim>\<open>dir\<close> message with an empty \<^verbatim>\<open>filename\<close>, handled while
  the canonical state has a non-empty \<^verbatim>\<open>filename\<close> and without \<^verbatim>\<open>forceClose\<close>, leaves
  \<^verbatim>\<open>filename\<close>, \<^verbatim>\<open>fileCwd\<close>, \<^verbatim>\<open>fileBody\<close>, \<^verbatim>\<open>fileEncoding\<close> and
  \<^verbatim>\<open>fileEncoded\<close> of the canonical state as they are, whether the call returns or
  raises, and the message that is merged into the canonical state carries these five
  fields of the canonical state. With \<^verbatim>\<open>forceClose\<close> the fields are not copied and the
  hub clears nothing itself: when the call returns, each of the five fields of the
  canonical state has the value the request carries for it, and keeps its value when the
  request does not carry it; the key \<^verbatim>\<open>forceClose\<close> does not reach the canonical state.
\<close>

theorem dir_keeps_open_file:
  "(dict_get m ''func'' = VStr ''dir'' \<and> \<not> truthy (dict_get m ''filename'') \<and>
    truthy (dict_get (MESSAGE h) ''filename'') \<and>
    \<not> truthy (dict_get_default m ''forceClose'' (VBool False)) \<longrightarrow>
      (\<forall>k \<in> set file_keys. MESSAGE (snd (handle_message env c m h)) k = MESSAGE h k) \<and>
      (\<forall>m1. prepare_dir env (MESSAGE h) (m(''nvimAddress'' := None)) = Inr m1 \<longrightarrow>
            (\<forall>k \<in> set file_keys. m1 k = MESSAGE h k))) \<and>
   (dict_get m ''func'' = VStr ''dir'' \<and> \<not> truthy (dict_get m ''filename'') \<and>
    truthy (dict_get (MESSAGE h) ''filename'') \<and>
    truthy (dict_get_default m ''forceClose'' (VBool False)) \<and>
    fst (handle_message env c m h) = None \<longrightarrow>
      (\<forall>k \<in> set file_keys.
         MESSAGE (snd (handle_message env c m h)) k =
           (case m k of None \<Rightarrow> MESSAGE h k | Some v \<Rightarrow> Some v)) \<and>
      MESSAGE (snd (handle_message env c m h)) ''forceClose'' = MESSAGE h ''forceClose'')"
proof (intro conjI impI)
  let ?m = "m(''nvimAddress'' := None)"
  assume a: "dict_get m ''func'' = VStr ''dir'' \<and> \<not> truthy (dict_get m ''filename'') \<and>
    truthy (dict_get (MESSAGE h) ''filename'') \<and>
    \<not> truthy (dict_get_default m ''forceClose'' (VBool False))"
  then have f: "dict_get m ''func'' = VStr ''dir''"
    and c1: "\<not> truthy (dict_get ?m ''filename'')"
    and c2: "truthy (dict_get (MESSAGE h) ''filename'')"
    and c3: "\<not> truthy (dict_get_default ?m ''forceClose'' (VBool False))"
    by (simp_all add: dict_get_def dict_get_default_def)
  show merge: "\<forall>m1. prepare_dir env (MESSAGE h) ?m = Inr m1 \<longrightarrow>
            (\<forall>k \<in> set file_keys. m1 k = MESSAGE h k)"
    using prepare_dir_merge [OF c1 c2 c3] by blast
  obtain r h2 where e: "enter env m h = (r, h2)" by (cases "enter env m h")
  note fr = enter_stacks [OF e]
  show "\<forall>k \<in> set file_keys. MESSAGE (snd (handle_message env c m h)) k = MESSAGE h k"
  proof (cases r)
    case (Some err)
    with e fr show ?thesis by (simp add: handle_enter_error)
  next
    case None
    note e' = e [unfolded None]
    show ?thesis
    proof (cases "prepare_dir env (MESSAGE h2) ?m")
      case (Inl err)
      with fr show ?thesis by (simp add: handle_dir [OF e' f])
    next
      case (Inr m1)
      with merge fr have "\<forall>k \<in> set file_keys. m1 k = MESSAGE h k" by simp
      with Inr fr show ?thesis
        by (auto simp: handle_dir [OF e' f] map_add_def split: option.splits)
    qed
  qed
next
  let ?m = "m(''nvimAddress'' := None)"
  assume a: "dict_get m ''func'' = VStr ''dir'' \<and> \<not> truthy (dict_get m ''filename'') \<and>
    truthy (dict_get (MESSAGE h) ''filename'') \<and>
    truthy (dict_get_default m ''forceClose'' (VBool False)) \<and>
    fst (handle_message env c m h) = None"
  then have f: "dict_get m ''func'' = VStr ''dir''"
    and c1: "\<not> truthy (dict_get ?m ''filename'')"
    and c2: "truthy (dict_get (MESSAGE h) ''filename'')"
    and c3: "truthy (dict_get_default ?m ''forceClose'' (VBool False))"
    and ok: "fst (handle_message env c m h) = None"
    by (simp_all add: dict_get_def dict_get_default_def)
  obtain r h2 where e: "enter env m h = (r, h2)" by (cases "enter env m h")
  note fr = enter_stacks [OF e]
  from ok e have rn: "r = None"
    by (cases r) (simp_all add: handle_enter_error)
  note e' = e [unfolded rn]
  from ok obtain m1 where p: "prepare_dir env (MESSAGE h2) ?m = Inr m1"
    by (cases "prepare_dir env (MESSAGE h2) ?m") (simp_all add: handle_dir [OF e' f])
  with fr have p': "prepare_dir env (MESSAGE h) ?m = Inr m1" by simp
  note forced = prepare_dir_forced [OF c1 c2 c3 p']
  have res: "MESSAGE (snd (handle_message env c m h)) = MESSAGE h ++ m1"
    using p fr by (simp add: handle_dir [OF e' f])
  have nk: "\<forall>k \<in> set file_keys. ?m k = m k" by (auto simp: file_keys_def)
  show "\<forall>k \<in> set file_keys.
         MESSAGE (snd (handle_message env c m h)) k =
           (case m k of None \<Rightarrow> MESSAGE h k | Some v \<Rightarrow> Some v)"
    using forced nk by (auto simp: res map_add_def split: option.splits)
  show "MESSAGE (snd (handle_message env c m h)) ''forceClose'' = MESSAGE h ''forceClose''"
    using forced by (simp add: res map_add_def)
qed

theorem dir_keeps_open_file_witness:
  "MESSAGE (snd (handle_message demo_env 2 (dir_message ''/b/'') reading)) ''filename'' =
     Some (VStr ''notes.md'') \<and>
   MESSAGE (snd (handle_message demo_env 2 (dir_message ''/b/'') reading)) ''fileCwd'' =
     Some (VStr ''/a/'') \<and>
   MESSAGE (snd (handle_message demo_env 2 (dir_message ''/b/'') reading)) ''fileBody'' =
     Some (VStr ''<md>x'') \<and>
   MESSAGE (snd (handle_message demo_env 2 (dir_message ''/b/'') reading)) ''fileEncoding'' =
     Some (VStr ''md'') \<and>
   MESSAGE (snd (handle_message demo_env 2 (dir_message ''/b/'') reading)) ''fileEncoded'' =
     Some (VBool True) \<and>
   fst (handle_message demo_env 1 close_request reading) = None \<and>
   MESSAGE (snd (handle_message demo_env 1 close_request reading)) ''filename'' = Some (VStr []) \<and>
   MESSAGE (snd (handle_message demo_env 1 close_request reading)) ''fileCwd'' = Some (VStr []) \<and>
   MESSAGE (snd (handle_message demo_env 1 close_request reading)) ''fileBody'' = Some (VStr []) \<and>
   MESSAGE (snd (handle_message demo_env 1 close_request reading)) ''fileEncoding'' =
     Some (VStr []) \<and>
   MESSAGE (snd (handle_message demo_env 1 close_request reading)) ''fileEncoded'' =
     Some (VBool True) \<and>
   MESSAGE (snd (handle_message demo_env 1 close_request reading)) ''forceClose'' = None"
proof -
  have ok: "fst (handle_message demo_env 1 close_request reading) = None"
    by (simp add: handle_message.simps eval_defs reading_def close_request_def file_state_def
        dir_entry_def)
  show ?thesis
    using dir_keeps_open_file [of "dir_message ''/b/''" reading demo_env 2]
          dir_keeps_open_file [of close_request reading demo_env 1] ok
    by (simp add: dir_message_def close_request_def reading_def file_state_def file_keys_def
        dict_get_def dict_get_default_def hub0_def fresh_hub_def)
qed

text \<open>
  The claim that a forced close discards all file fields fails. The request that the
  viewer's close button sends leaves \<^verbatim>\<open>fileEncoded\<close> true, and a forced-close request
  that carries no \<^verbatim>\<open>fileBody\<close>, \<^verbatim>\<open>fileCwd\<close> and \<^verbatim>\<open>fileEncoding\<close> is handled
  without exception and leaves the rendered body, the directory and the encoding of the
  file in the canonical state.
\<close>

theorem forced_close_keeps_fields_counterexample:
  "dict_get (MESSAGE reading) ''filename'' = VStr ''notes.md'' \<and>
   dict_get close_request ''func'' = VStr ''dir'' \<and>
   dict_get close_request ''filename'' = VStr [] \<and>
   dict_get close_request ''forceClose'' = VBool True \<and>
   fst (handle_message demo_env 1 close_request reading) = None \<and>
   MESSAGE (snd (handle_message demo_env 1 close_request reading)) ''fileEncoded'' =
     Some (VBool True) \<and>
   dict_get bare_close ''func'' = VStr ''dir'' \<and>
   dict_get bare_close ''filename'' = VStr [] \<and>
   dict_get bare_close ''forceClose'' = VBool True \<and>
   fst (handle_message demo_env 1 bare_close reading) = None \<and>
   MESSAGE (snd (handle_message demo_env 1 bare_close reading)) ''fileBody'' =
     Some (VStr ''<md>x'') \<and>
   MESSAGE (snd (handle_message demo_env 1 bare_close reading)) ''fileCwd'' =
     Some (VStr ''/a/'') \<and>
   MESSAGE (snd (handle_message demo_env 1 bare_close reading)) ''fileEncoding'' =
     Some (VStr ''md'')"
  by (simp add: handle_message.simps eval_defs reading_def close_request_def bare_close_def
      file_state_def dir_entry_def)











lemma visited_enter: "enter demo_env back_request visited_ab = (None, visited_ab)"
  by (simp add: visit_defs handle_message.simps eval_defs)



text \<open>The example state is the one the operations \<open>visits\<close> reach from the fresh hub.\<close>

lemma visits_reach: "run demo_env visits hub0 = visited_ab"
proof -
  have "dir_message ''/a/'' ++ dir_message ''/b/'' = dir_message ''/b/''"
    by (rule ext) (simp add: dir_message_def map_add_def)
  moreover have "run demo_env visits hub0 =
        hub0\<lparr>MESSAGE := dir_message ''/a/'' ++ dir_message ''/b/'',
          BACKMESSAGES := [dir_entry ''/b/'', dir_entry ''/a/''],
          JSCLIENTS := {1},
          proc_cwd := ''/home/u/b/'',
          frames := [Send 1 Map.empty, Broadcast {1} (dir_message ''/a/''),
                     Broadcast {1} (dir_message ''/a/'' ++ dir_message ''/b/'')]\<rparr>"
    by (simp add: visit_defs handle_message.simps eval_defs)
  ultimately show ?thesis by (simp add: visited_ab_def)
qed

text \<open>
  \<^verbatim>\<open>validate_message\<close> checks a message only when its \<^verbatim>\<open>client\<close> is \<^verbatim>\<open>"dir"\<close> or
  \<^verbatim>\<open>"file"\<close>, and a key outside the required ones never changes its answer.
\<close>

lemma validate_by_client:
  "dict_get_default m ''client'' (VStr ''func'') \<notin> {VStr ''dir'', VStr ''file''} \<Longrightarrow>
   validate_message m = None"
  by (simp add: validate_message_def)

lemma validate_extra_key:
  assumes "k \<notin> set required_keys"
  shows "validate_message (m(k \<mapsto> v)) = validate_message m"
proof -
  have "''client'' \<in> set required_keys" by (simp add: required_keys_def)
  with assms have "k \<noteq> ''client''" by blast
  then have c: "dict_get_default (m(k \<mapsto> v)) ''client'' (VStr ''func'') =
                dict_get_default m ''client'' (VStr ''func'')"
    by (simp add: dict_get_default_def)
  have "list_all (\<lambda>key. (m(k \<mapsto> v)) key \<noteq> None \<and> key \<in> set required_keys) required_keys =
        list_all (\<lambda>key. m key \<noteq> None \<and> key \<in> set required_keys) required_keys"
    using assms unfolding list_all_iff by auto
  with c show ?thesis by (simp only: validate_message_def)
qed

text \<open>
  Claim C1 fails on the code. A \<^verbatim>\<open>dir\<close> message of a producer that lacks the key
  \<^verbatim>\<open>fileOpen\<close> and carries the key \<^verbatim>\<open>extra\<close> passes \<^verbatim>\<open>validate_message\<close>, is handled
  without any exception, and is merged into the canonical state of the fresh hub.
\<close>

theorem invalid_message_accepted:
  "partial_dir ''func'' = Some (VStr ''dir'') \<and>
   partial_dir ''fileOpen'' = None \<and> partial_dir ''extra'' = Some (VStr ''x'') \<and>
   validate_message partial_dir = None \<and>
   fst (handle_message demo_env 2 partial_dir hub0) = None \<and>
   MESSAGE hub0 ''cwd'' = None \<and> MESSAGE hub0 ''extra'' = None \<and>
   MESSAGE (snd (handle_message demo_env 2 partial_dir hub0)) ''cwd'' = Some (VStr ''/a/'') \<and>
   MESSAGE (snd (handle_message demo_env 2 partial_dir hub0)) ''extra'' = Some (VStr ''x'') \<and>
   MESSAGE (snd (handle_message demo_env 2 partial_dir hub0)) ''fileOpen'' = None"
  by (simp add: handle_message.simps eval_defs partial_dir_def dir_message_def)










end
